theory Spec2Isabelle
  imports Main "HOL-Library.Char_ord" "HOL-Library.List_Lexorder" "HOL-Library.Multiset"
begin

section \<open>TableFu: a shallow embedding of \<^verbatim>\<open>table_fu/__init__.py\<close>\<close>

text \<open>
  The module is Python 2. Cell values and column names are strings (\<open>str\<close>, compared
  byte by byte, which is the lexicographic order of \<open>char list\<close> given by
  \<open>Char_ord\<close> and \<open>List_Lexorder\<close>). Methods that mutate \<open>self\<close> take the
  table and return it updated; every \<^verbatim>\<open>raise\<close> is a value of type \<open>error\<close>.
  The embedding covers the constructor, \<^verbatim>\<open>sort\<close>, \<^verbatim>\<open>transform\<close>, \<^verbatim>\<open>values\<close>,
  \<^verbatim>\<open>total\<close>, \<^verbatim>\<open>filter\<close> with a predicate, \<^verbatim>\<open>facet_by\<close>, \<^verbatim>\<open>transpose\<close>,
  \<^verbatim>\<open>add_rows\<close>, \<^verbatim>\<open>delete_row\<close>, \<^verbatim>\<open>dict\<close> and the methods of \<^verbatim>\<open>Row\<close> they
  use. Functions passed in (a predicate, the function of \<^verbatim>\<open>transform\<close>) are HOL
  functions: they are callable, total and raise nothing.
\<close>

subsection \<open>Exceptions\<close>

datatype exc_class = ValueError | KeyError | IndexError | AttributeError

text \<open>
  A key handed to \<^verbatim>\<open>Row.get\<close> / \<^verbatim>\<open>Row.__getitem__\<close> or to \<^verbatim>\<open>TableFu.sort\<close>:
  a column name, an integer position (what \<^verbatim>\<open>row[index]\<close> passes when \<^verbatim>\<open>row\<close>
  is a \<^verbatim>\<open>Row\<close> object), or \<^verbatim>\<open>None\<close>.
\<close>

datatype key = Name string | Position nat | PyNone

text \<open>
  The text an exception carries.
  \<^item> \<open>NotAColumn k\<close> is \<^verbatim>\<open>u"{0} isn't a column in this table".format(k)\<close>;
  \<^item> \<open>NonNumeric c\<close> is \<^verbatim>\<open>u'Column {0} contains non-numeric values'.format(c)\<close>;
  \<^item> the others are texts of the interpreter: \<open>BadFloat v\<close> for a failing
    \<^verbatim>\<open>float(v)\<close>, \<open>ListIndex\<close> for a list index out of range, \<open>PopEmpty\<close>
    for \<^verbatim>\<open>[].pop(0)\<close>, \<open>NoAttribute ty a\<close> for a missing attribute \<open>a\<close> of an
    object of type \<open>ty\<close>.
\<close>

datatype message =
    NotAColumn key
  | NonNumeric string
  | BadFloat string
  | ListIndex
  | PopEmpty
  | NoAttribute string string

datatype error = Err exc_class message


fun message_of :: "error \<Rightarrow> message" where
  "message_of (Err c m) = m"


subsection \<open>Lists as Python uses them\<close>

text \<open>\<^verbatim>\<open>xs.index(x)\<close>, called only after \<^verbatim>\<open>x in xs\<close> has been checked.\<close>

fun index_of :: "'a list \<Rightarrow> 'a \<Rightarrow> nat" where
  "index_of [] x = 0"
| "index_of (y # ys) x = (if y = x then 0 else Suc (index_of ys x))"

text \<open>\<^verbatim>\<open>xs[i]\<close> for a non-negative \<open>i\<close>: IndexError out of range.\<close>

definition list_get :: "'a list \<Rightarrow> nat \<Rightarrow> error + 'a" where
  "list_get xs i = (if i < length xs then Inr (xs ! i) else Inl (Err IndexError ListIndex))"

text \<open>A comprehension or loop whose body may raise: the first exception ends it.\<close>

fun map_result :: "('a \<Rightarrow> error + 'b) \<Rightarrow> 'a list \<Rightarrow> error + 'b list" where
  "map_result f [] = Inr []"
| "map_result f (x # xs) =
     (case f x of
        Inl e \<Rightarrow> Inl e
      | Inr y \<Rightarrow> (case map_result f xs of Inl e \<Rightarrow> Inl e | Inr ys \<Rightarrow> Inr (y # ys)))"

text \<open>
  \<^verbatim>\<open>xs.sort(key=k, reverse=r)\<close> and \<^verbatim>\<open>sorted\<close>: a stable sort; with
  \<^verbatim>\<open>reverse=True\<close> the order is descending and equal keys still keep their original
  order, which is sorting the reversed list and reversing the result.
\<close>

definition py_sort :: "('a \<Rightarrow> 'k::linorder) \<Rightarrow> bool \<Rightarrow> 'a list \<Rightarrow> 'a list" where
  "py_sort k r xs = (if r then rev (sort_key k (rev xs)) else sort_key k xs)"

text \<open>
  The public attributes of a Python 2 \<^verbatim>\<open>list\<close>; looking up any other name raises
  AttributeError.
\<close>

definition list_attributes :: "string list" where
  "list_attributes =
     [''append'', ''count'', ''extend'', ''index'', ''insert'', ''pop'', ''remove'',
      ''reverse'', ''sort'']"

definition list_getattr :: "string \<Rightarrow> error option" where
  "list_getattr a =
     (if a \<in> set list_attributes then None
      else Some (Err AttributeError (NoAttribute ''list'' a)))"

subsection \<open>Datum and Row\<close>

text \<open>
  A \<^verbatim>\<open>Datum\<close>: value, row number and column name. Its back-reference to the table
  is used for formatting and style only and is left out.
\<close>

record datum =
  "value" :: string
  datum_row_num :: nat
  column_name :: string

text \<open>
  \<^verbatim>\<open>Datum\<close> defines neither \<^verbatim>\<open>__nonzero__\<close> nor \<^verbatim>\<open>__len__\<close>, so in a
  condition every instance is true, whatever its value.
\<close>

definition datum_truth :: "datum \<Rightarrow> bool" where
  "datum_truth d = True"

text \<open>
  A \<^verbatim>\<open>Row\<close>: its own copy of the cells, its position, and what its methods read
  from the table it refers to: \<^verbatim>\<open>table.default_columns\<close> and the property
  \<^verbatim>\<open>table.columns\<close>. The row is a snapshot of these two at the time it is built.
\<close>

record row =
  cells :: "string list"
  row_num :: nat
  table_default_columns :: "string list"
  table_columns :: "string list"

text \<open>What \<^verbatim>\<open>Row.get\<close> returns: the Datum, or the default it was given.\<close>

datatype 'd got = Found datum | Default 'd

text \<open>\<^verbatim>\<open>Row.get(column_name, default)\<close>. Only a name can be in the list of names.\<close>

fun row_get :: "row \<Rightarrow> key \<Rightarrow> 'd \<Rightarrow> error + 'd got" where
  "row_get r (Name c) dflt =
     (if c \<in> set (table_default_columns r) then
        (case list_get (cells r) (index_of (table_default_columns r) c) of
           Inl e \<Rightarrow> Inl e
         | Inr v \<Rightarrow> Inr (Found \<lparr>value = v, datum_row_num = row_num r, column_name = c\<rparr>))
      else Inr (Default dflt))"
| "row_get r k dflt = Inr (Default dflt)"

text \<open>\<^verbatim>\<open>Row.__getitem__\<close>: \<^verbatim>\<open>get\<close> with the default \<^verbatim>\<open>None\<close>, which raises KeyError.\<close>

definition row_getitem :: "row \<Rightarrow> key \<Rightarrow> error + datum" where
  "row_getitem r k =
     (case row_get r k () of
        Inl e \<Rightarrow> Inl e
      | Inr (Found d) \<Rightarrow> Inr d
      | Inr (Default u) \<Rightarrow> Inl (Err KeyError (NotAColumn k)))"

text \<open>\<^verbatim>\<open>Row.data\<close>, \<^verbatim>\<open>Row.keys\<close>, \<^verbatim>\<open>Row.values\<close>.\<close>

definition row_data :: "row \<Rightarrow> error + datum list" where
  "row_data r = map_result (\<lambda>col. row_getitem r (Name col)) (table_columns r)"

definition row_keys :: "row \<Rightarrow> string list" where
  "row_keys r = table_columns r"

definition row_values :: "row \<Rightarrow> error + string list" where
  "row_values r = (case row_data r of Inl e \<Rightarrow> Inl e | Inr ds \<Rightarrow> Inr (map value ds))"

text \<open>
  The objects a pair of \<^verbatim>\<open>Row.items()\<close> can hold as its second component: a raw
  string, or a Datum object.
\<close>

datatype pyval = Str string | DatumObj datum

text \<open>\<^verbatim>\<open>Row.items\<close>: \<^verbatim>\<open>zip(self.keys(), self.values())\<close>.\<close>

definition row_items :: "row \<Rightarrow> error + (string \<times> pyval) list" where
  "row_items r =
     (case row_values r of Inl e \<Rightarrow> Inl e | Inr vs \<Rightarrow> Inr (zip (row_keys r) (map Str vs)))"

subsection \<open>The table\<close>

text \<open>
  An element of the list \<^verbatim>\<open>self.table\<close>: a plain list of cells, or a \<^verbatim>\<open>Row\<close>
  object (\<^verbatim>\<open>filter\<close> builds its result from the rows the predicate accepted).
\<close>

datatype elem = Plain "string list" | Wrapped row

record fmt_spec =
  fmt_filter :: "string option"
  fmt_args :: "string list"
  fmt_options :: "(string \<times> string) list"

type_synonym formatting = "(string \<times> fmt_spec) list"
type_synonym style = "(string \<times> string) list"

text \<open>
  The keyword arguments of the constructor, kept as \<^verbatim>\<open>self.options\<close>. A key that is
  absent is \<open>None\<close>. \<open>opt_sorted_by\<close> is the dictionary
  \<^verbatim>\<open>{column: {'reverse': reverse}}\<close> in the shape \<^verbatim>\<open>sort\<close> writes it.
\<close>

record options =
  opt_columns :: "string list option"
  opt_formatting :: "formatting option"
  opt_style :: "style option"
  opt_sorted_by :: "(string \<times> bool) option"

definition no_options :: options where
  "no_options = \<lparr>opt_columns = None, opt_formatting = None, opt_style = None,
     opt_sorted_by = None\<rparr>"

text \<open>
  The fields of a \<^verbatim>\<open>TableFu\<close> (\<open>private_columns\<close> is \<^verbatim>\<open>_columns\<close>; \<^verbatim>\<open>totals\<close>
  is never read or written after construction and is left out). The type parameter is
  what \<^verbatim>\<open>self.table\<close> is: the list itself in the value model, its address in the
  model with a store.
\<close>

record 'tbl table_object =
  table :: 'tbl
  default_columns :: "string list"
  private_columns :: "string list"
  deleted_rows :: "elem list"
  faceted_on :: "string option"
  formatting :: formatting
  style :: style
  options :: options

type_synonym tablefu = "elem list table_object"

text \<open>The property \<^verbatim>\<open>columns\<close> (\<^verbatim>\<open>_get_columns\<close>): an empty list is false.\<close>

definition columns :: "'tbl table_object \<Rightarrow> string list" where
  "columns t = (if private_columns t \<noteq> [] then private_columns t else default_columns t)"

text \<open>
  \<^verbatim>\<open>Row(cells, row_num, table)\<close>: \<^verbatim>\<open>list(cells)\<close> copies a plain list, and
  iterates a \<^verbatim>\<open>Row\<close> object through its \<^verbatim>\<open>__iter__\<close>, that is its
  \<^verbatim>\<open>values()\<close>.
\<close>

definition mk_row :: "elem \<Rightarrow> nat \<Rightarrow> 'tbl table_object \<Rightarrow> error + row" where
  "mk_row e i t =
     (case (case e of Plain xs \<Rightarrow> Inr xs | Wrapped r \<Rightarrow> row_values r) of
        Inl err \<Rightarrow> Inl err
      | Inr cs \<Rightarrow> Inr \<lparr>cells = cs, row_num = i, table_default_columns = default_columns t,
                      table_columns = columns t\<rparr>)"

text \<open>The property \<^verbatim>\<open>rows\<close>, consumed to its end.\<close>

definition rows :: "tablefu \<Rightarrow> error + row list" where
  "rows t = map_result (\<lambda>(i, e). mk_row e i t) (enumerate 0 (table t))"

text \<open>
  \<^verbatim>\<open>row[index]\<close> on an element of \<^verbatim>\<open>self.table\<close>, as \<^verbatim>\<open>sort\<close>,
  \<^verbatim>\<open>transform\<close>, \<^verbatim>\<open>values\<close> and \<^verbatim>\<open>transpose\<close> write it. On a \<^verbatim>\<open>Row\<close>
  object this is \<^verbatim>\<open>Row.__getitem__\<close> with an integer.
\<close>

definition elem_getitem :: "elem \<Rightarrow> nat \<Rightarrow> error + string" where
  "elem_getitem e i =
     (case e of
        Plain xs \<Rightarrow> list_get xs i
      | Wrapped r \<Rightarrow>
          (case row_getitem r (Position i) of Inl err \<Rightarrow> Inl err | Inr d \<Rightarrow> Inr (value d)))"

text \<open>The value of \<^verbatim>\<open>row[index]\<close> where it exists.\<close>

definition cell :: "nat \<Rightarrow> elem \<Rightarrow> string" where
  "cell i e = (case elem_getitem e i of Inl err \<Rightarrow> [] | Inr v \<Rightarrow> v)"

subsection \<open>sort and the constructor\<close>

text \<open>
  \<^verbatim>\<open>sort(column_name=None, reverse=False)\<close>. An empty name and \<^verbatim>\<open>None\<close> are both
  false, and then the column recorded in \<^verbatim>\<open>options['sorted_by']\<close> is taken when
  there is one. The keys \<^verbatim>\<open>row[index]\<close> are all computed before the list is
  reordered, so a key that raises leaves the list as it was.
\<close>

definition resolve_column :: "string option \<Rightarrow> options \<Rightarrow> string option" where
  "resolve_column col_name opts =
     (if (col_name = None \<or> col_name = Some []) \<and> opt_sorted_by opts \<noteq> None
      then map_option fst (opt_sorted_by opts)
      else col_name)"

definition sort_table :: "string option \<Rightarrow> bool \<Rightarrow> tablefu \<Rightarrow> error option \<times> tablefu" where
  "sort_table col_name reverse t =
     (case resolve_column col_name (options t) of
        None \<Rightarrow> (Some (Err ValueError (NotAColumn PyNone)), t)
      | Some c \<Rightarrow>
          if c \<notin> set (default_columns t) then (Some (Err ValueError (NotAColumn (Name c))), t)
          else
            let index = index_of (default_columns t) c in
            (case map_result (\<lambda>row. elem_getitem row index) (table t) of
               Inl e \<Rightarrow> (Some e, t)
             | Inr ks \<Rightarrow>
                 (None, t\<lparr>table := py_sort (cell index) reverse (table t),
                           options := (options t)\<lparr>opt_sorted_by := Some (c, reverse)\<rparr>\<rparr>)))"

text \<open>
  The header is \<^verbatim>\<open>self.table.pop(0)\<close>. The module only ever puts a plain list of
  names there; a \<^verbatim>\<open>Row\<close> object in that place is read as its cells.
\<close>

fun header_of :: "elem \<Rightarrow> string list" where
  "header_of (Plain xs) = xs"
| "header_of (Wrapped r) = cells r"

text \<open>The assignments of \<^verbatim>\<open>__init__\<close> after the header has been popped.\<close>

definition init_fields :: "string list \<Rightarrow> 'tbl \<Rightarrow> options \<Rightarrow> 'tbl table_object" where
  "init_fields header body opts =
     \<lparr>table = body,
      default_columns = header,
      private_columns = (case opt_columns opts of None \<Rightarrow> [] | Some cs \<Rightarrow> cs),
      deleted_rows = [],
      faceted_on = None,
      formatting = (case opt_formatting opts of None \<Rightarrow> [] | Some f \<Rightarrow> f),
      style = (case opt_style opts of None \<Rightarrow> [] | Some s \<Rightarrow> s),
      options = opts\<rparr>"

text \<open>
  \<^verbatim>\<open>TableFu(table, **options)\<close> for a list (the rows a \<^verbatim>\<open>csv.reader\<close> yields are
  such a list too). Popping from an empty list raises IndexError; an exception of the
  sort requested by \<^verbatim>\<open>sorted_by\<close> leaves the constructor.
\<close>

definition init :: "elem list \<Rightarrow> options \<Rightarrow> error + tablefu" where
  "init tbl opts =
     (case tbl of
        [] \<Rightarrow> Inl (Err IndexError PopEmpty)
      | h # body \<Rightarrow>
          (case opt_sorted_by opts of
             None \<Rightarrow> Inr (init_fields (header_of h) body opts)
           | Some (col, reverse) \<Rightarrow>
               (case sort_table (Some col) reverse (init_fields (header_of h) body opts) of
                  (None, t) \<Rightarrow> Inr t
                | (Some e, t) \<Rightarrow> Inl e)))"


subsection \<open>transform, values, total\<close>



text \<open>\<^verbatim>\<open>values(column_name)\<close>, and with \<^verbatim>\<open>unique=True\<close> the set of them.\<close>

definition values_of :: "string \<Rightarrow> tablefu \<Rightarrow> error + string list" where
  "values_of column t =
     (if column \<notin> set (default_columns t)
      then Inl (Err ValueError (NotAColumn (Name column)))
      else map_result (\<lambda>row. elem_getitem row (index_of (default_columns t) column)) (table t))"

definition values_unique :: "string \<Rightarrow> tablefu \<Rightarrow> error + string set" where
  "values_unique column t =
     (case values_of column t of Inl e \<Rightarrow> Inl e | Inr vs \<Rightarrow> Inr (set vs))"



subsection \<open>filter, facet_by, transpose, dict\<close>

text \<open>
  \<^verbatim>\<open>filter(func)\<close> with a callable: the built-in \<^verbatim>\<open>filter\<close> iterates the table,
  that is its \<^verbatim>\<open>rows\<close>, and returns the list of the \<^verbatim>\<open>Row\<close> objects accepted;
  the header is inserted in front and the list goes to the constructor with
  \<^verbatim>\<open>self.options\<close>.
\<close>

definition filter_table :: "(row \<Rightarrow> bool) \<Rightarrow> tablefu \<Rightarrow> error + tablefu" where
  "filter_table func t =
     (case rows t of
        Inl e \<Rightarrow> Inl e
      | Inr rs \<Rightarrow> init (Plain (default_columns t) # map Wrapped (filter func rs)) (options t))"

text \<open>
  The dictionary \<^verbatim>\<open>faceted_spreadsheets\<close>, as an association list in the order the
  keys were first seen (a Python 2 dictionary has no order of its own; the result is
  sorted by key afterwards).
\<close>

fun facet_add :: "string \<Rightarrow> string list \<Rightarrow> (string \<times> string list list) list \<Rightarrow> (string \<times> string list list) list" where
  "facet_add k cs [] = [(k, [cs])]"
| "facet_add k cs ((k', v) # kvs) =
     (if k' = k then (k', v @ [cs]) # kvs else (k', v) # facet_add k cs kvs)"

text \<open>The first loop of \<^verbatim>\<open>facet_by\<close>, over \<^verbatim>\<open>enumerate(self.table)\<close>.\<close>

fun facet_loop ::
  "string \<Rightarrow> tablefu \<Rightarrow> (nat \<times> elem) list \<Rightarrow> (string \<times> string list list) list \<Rightarrow>
   error + (string \<times> string list list) list" where
  "facet_loop column t [] acc = Inr acc"
| "facet_loop column t ((i, e) # ies) acc =
     (case mk_row e i t of
        Inl err \<Rightarrow> Inl err
      | Inr r \<Rightarrow>
          (case row_getitem r (Name column) of
             Inl err \<Rightarrow> Inl err
           | Inr d \<Rightarrow>
               if datum_truth d then facet_loop column t ies (facet_add (value d) (cells r) acc)
               else facet_loop column t ies acc))"

text \<open>
  The second loop: one \<^verbatim>\<open>TableFu(v)\<close> per key, built without options, then given
  the key, the parent's formatting and the parent's options.
\<close>

definition facet_table :: "tablefu \<Rightarrow> string \<times> string list list \<Rightarrow> error + tablefu" where
  "facet_table t kv =
     (case init (Plain (default_columns t) # map Plain (snd kv)) no_options of
        Inl e \<Rightarrow> Inl e
      | Inr ft \<Rightarrow> Inr (ft\<lparr>faceted_on := Some (fst kv), formatting := formatting t,
                           options := options t\<rparr>))"

definition facet_key :: "tablefu \<Rightarrow> string" where
  "facet_key ft = (case faceted_on ft of None \<Rightarrow> [] | Some k \<Rightarrow> k)"

definition facet_by :: "string \<Rightarrow> tablefu \<Rightarrow> error + tablefu list" where
  "facet_by column t =
     (case facet_loop column t (enumerate 0 (table t)) [] of
        Inl e \<Rightarrow> Inl e
      | Inr kvs \<Rightarrow>
          (case map_result (facet_table t) kvs of
             Inl e \<Rightarrow> Inl e
           | Inr tables \<Rightarrow> Inr (py_sort facet_key False tables)))"

text \<open>
  \<^verbatim>\<open>transpose()\<close>. The copy of the options without \<^verbatim>\<open>'columns'\<close> is computed and
  then not used: the constructor gets \<^verbatim>\<open>self.options\<close>.
\<close>

definition transpose_table :: "tablefu \<Rightarrow> error + tablefu" where
  "transpose_table t =
     (let tbl = Plain (default_columns t) # table t in
      (case map_result (\<lambda>i. map_result (\<lambda>row. elem_getitem row i) tbl)
              [0 ..< length (header_of (hd tbl))] of
         Inl e \<Rightarrow> Inl e
       | Inr result \<Rightarrow>
           let opts = (options t)\<lparr>opt_columns := None\<rparr> in
           init (map Plain result) (options t)))"

text \<open>
  \<^verbatim>\<open>dict(pairs)\<close>: a later pair with the same key replaces an earlier one.
  \<^verbatim>\<open>TableFu.dict()\<close> yields one dictionary per row.
\<close>

definition py_dict :: "('k \<times> 'v) list \<Rightarrow> ('k \<rightharpoonup> 'v)" where
  "py_dict kvs = map_of (rev kvs)"

definition table_dict :: "tablefu \<Rightarrow> error + (string \<rightharpoonup> pyval) list" where
  "table_dict t =
     map_result
       (\<lambda>(i, e). case mk_row e i t of
            Inl err \<Rightarrow> Inl err
          | Inr r \<Rightarrow> (case row_items r of Inl err \<Rightarrow> Inl err | Inr kvs \<Rightarrow> Inr (py_dict kvs)))
       (enumerate 0 (table t))"

subsection \<open>delete_row\<close>

text \<open>
  \<^verbatim>\<open>self.deleted_rows.append(self.table.rows.pop(row_num))\<close>: the argument is
  evaluated first, and \<^verbatim>\<open>self.table\<close> is a list, whose attribute \<^verbatim>\<open>rows\<close> is
  looked up. A bound method of a list has no \<^verbatim>\<open>pop\<close> either.
\<close>

definition delete_row :: "nat \<Rightarrow> tablefu \<Rightarrow> error option \<times> tablefu" where
  "delete_row n t =
     (case list_getattr ''rows'' of
        Some e \<Rightarrow> (Some e, t)
      | None \<Rightarrow> (Some (Err AttributeError (NoAttribute ''builtin_function_or_method'' ''pop'')), t))"

subsection \<open>The caller's list: a store of list objects\<close>


text \<open>The same object with another \<^verbatim>\<open>table\<close>: the list for its address, or back.\<close>

definition retable :: "'a table_object \<Rightarrow> 'b \<Rightarrow> 'b table_object" where
  "retable t x =
     \<lparr>table = x, default_columns = default_columns t, private_columns = private_columns t,
      deleted_rows = deleted_rows t, faceted_on = faceted_on t, formatting = formatting t,
      style = style t, options = options t\<rparr>"



subsection \<open>Tables used as concrete inputs\<close>

text \<open>
  The table of the module's docstring (\<^verbatim>\<open>tests/test.csv\<close>), as the list handed to
  the constructor.
\<close>

definition authors :: "elem list" where
  "authors =
     [Plain [''Author'', ''Best Book'', ''Number of Pages'', ''Style''],
      Plain [''Samuel Beckett'', ''Malone Muert'', ''120'', ''Modernism''],
      Plain [''James Joyce'', ''Ulysses'', ''644'', ''Modernism''],
      Plain [''Nicholson Baker'', ''Mezannine'', ''150'', ''Minimalism''],
      Plain [''Vladimir Sorokin'', ''The Queue'', ''263'', ''Satire'']]"

text \<open>A table with one empty cell in the column \<open>Style\<close>.\<close>

definition with_blank :: "elem list" where
  "with_blank =
     [Plain [''Author'', ''Style''],
      Plain [''Samuel Beckett'', ''Modernism''],
      Plain [''Anonymous'', ''''],
      Plain [''Nicholson Baker'', ''Minimalism'']]"

text \<open>What a list of facet tables shows: the value each is faceted on, and its rows.\<close>

definition facets_summary :: "error + tablefu list \<Rightarrow> error + (string option \<times> elem list) list" where
  "facets_summary res =
     (case res of
        Inl e \<Rightarrow> Inl e
      | Inr ts \<Rightarrow> Inr (map (\<lambda>ft. (faceted_on ft, table ft)) ts))"

text \<open>The docstring's table once constructed, and once sorted by pages, largest first.\<close>

definition authors_table :: tablefu where
  "authors_table = init_fields (header_of (hd authors)) (tl authors) no_options"

definition authors_by_pages :: tablefu where
  "authors_by_pages =
     (init_fields (header_of (hd authors))
        [Plain [''James Joyce'', ''Ulysses'', ''644'', ''Modernism''],
         Plain [''Vladimir Sorokin'', ''The Queue'', ''263'', ''Satire''],
         Plain [''Nicholson Baker'', ''Mezannine'', ''150'', ''Minimalism''],
         Plain [''Samuel Beckett'', ''Malone Muert'', ''120'', ''Modernism'']]
        no_options)
     \<lparr>options := no_options\<lparr>opt_sorted_by := Some (''Number of Pages'', True)\<rparr>\<rparr>"

text \<open>
  \<^verbatim>\<open>Row.items()\<close> as the specification words it: each active column name with the
  cell's Datum object. It is compared with \<open>row_items\<close>, which follows the source.
\<close>

definition row_items_spec :: "row \<Rightarrow> error + (string \<times> pyval) list" where
  "row_items_spec r =
     (case row_data r of Inl e \<Rightarrow> Inl e | Inr ds \<Rightarrow> Inr (zip (row_keys r) (map DatumObj ds)))"

text \<open>The first row of the docstring's table, in a table whose columns are overridden.\<close>

definition beckett_row :: row where
  "beckett_row = \<lparr>cells = [''Samuel Beckett'', ''Malone Muert'', ''120'', ''Modernism''],
     row_num = 0,
     table_default_columns = [''Author'', ''Best Book'', ''Number of Pages'', ''Style''],
     table_columns = [''Style'', ''Author'']\<rparr>"


text \<open>
  The length of an element of the body: \<^verbatim>\<open>len(row)\<close>, which for a \<^verbatim>\<open>Row\<close>
  object is \<^verbatim>\<open>Row.__len__\<close>, the number of its cells.
\<close>

fun row_length :: "elem \<Rightarrow> nat" where
  "row_length (Plain xs) = length xs"
| "row_length (Wrapped r) = length (cells r)"

text \<open>
  A rectangular table: every element of the body has as many cells as there are default
  columns, whether it is a plain list or a \<^verbatim>\<open>Row\<close> object. The raw grid is the
  header row followed by the body.
\<close>

definition rectangular :: "tablefu \<Rightarrow> bool" where
  "rectangular t = list_all (\<lambda>e. row_length e = length (default_columns t)) (table t)"

text \<open>
  A body of plain lists, as the constructor gets it from a caller or a CSV reader, and
  as \<^verbatim>\<open>facet_by\<close> and \<^verbatim>\<open>transpose\<close> build it. The body that \<^verbatim>\<open>filter\<close>
  builds is not one: it holds \<^verbatim>\<open>Row\<close> objects.
\<close>

definition plain_rows :: "tablefu \<Rightarrow> bool" where
  "plain_rows t = list_all (\<lambda>e. case e of Plain xs \<Rightarrow> True | Wrapped r \<Rightarrow> False) (table t)"

definition raw_grid :: "tablefu \<Rightarrow> elem list" where
  "raw_grid t = Plain (default_columns t) # table t"

text \<open>
  The comprehension of \<^verbatim>\<open>transpose\<close> on a grid of plain rows in which every index it
  reads exists.
\<close>

definition swap_axes :: "'a list list \<Rightarrow> 'a list list" where
  "swap_axes g = map (\<lambda>i. map (\<lambda>row. row ! i) g) [0 ..< length (hd g)]"

text \<open>A table without columns, as \<^verbatim>\<open>TableFu([[]])\<close> builds it.\<close>

definition no_columns_table :: tablefu where
  "no_columns_table = init_fields [] [] no_options"

text \<open>
  The table \<^verbatim>\<open>filter(lambda r: True)\<close> returns for the docstring's table: the same
  header, and one \<^verbatim>\<open>Row\<close> object for each row.
\<close>

definition authors_filtered :: tablefu where
  "authors_filtered =
     init_fields (default_columns authors_table)
       (map (\<lambda>(i, e). Wrapped \<lparr>cells = header_of e, row_num = i,
                 table_default_columns = default_columns authors_table,
                 table_columns = default_columns authors_table\<rparr>)
          (enumerate 0 (table authors_table)))
       no_options"

text \<open>
  A table whose first column has the empty string as its name, after \<^verbatim>\<open>sort('B')\<close>:
  \<^verbatim>\<open>TableFu([['', 'B'], ['2', 'x'], ['1', 'y']])\<close>, with the sort recorded.
\<close>

definition blank_header_sorted :: tablefu where
  "blank_header_sorted =
     (init_fields [[], ''B''] [Plain [''2'', ''x''], Plain [''1'', ''y'']] no_options)
     \<lparr>options := no_options\<lparr>opt_sorted_by := Some (''B'', False)\<rparr>\<rparr>"



section \<open>Properties\<close>

text \<open>
  C10. For every table and every index, \<^verbatim>\<open>delete_row\<close> raises AttributeError (it
  reads an attribute \<^verbatim>\<open>rows\<close> of the plain list holding the body); it removes no row,
  appends nothing to \<^verbatim>\<open>deleted_rows\<close>, and leaves the table as it was.
\<close>

theorem delete_row_always_raises:
  "fst (delete_row n t) = Some (Err AttributeError (NoAttribute ''list'' ''rows''))
   \<and> snd (delete_row n t) = t
   \<and> table (snd (delete_row n t)) = table t
   \<and> deleted_rows (snd (delete_row n t)) = deleted_rows t"
  by (simp add: delete_row_def list_getattr_def list_attributes_def)

subsection \<open>Loops that may raise\<close>

lemma map_result_ok_iff:
  "(\<exists>ys. map_result f xs = Inr ys) \<longleftrightarrow> (\<forall>x\<in>set xs. \<exists>y. f x = Inr y)"
  by (induction xs) (auto split: sum.splits)

lemma map_result_Inr_map:
  "(\<And>x. x \<in> set xs \<Longrightarrow> f x = Inr (g x)) \<Longrightarrow> map_result f xs = Inr (map g xs)"
  by (induction xs) auto

lemma map_result_Inr_length:
  "map_result f xs = Inr ys \<Longrightarrow> length ys = length xs"
  by (induction xs arbitrary: ys) (auto split: sum.splits)

lemma map_result_Inr_nth:
  "map_result f xs = Inr ys \<Longrightarrow> i < length xs \<Longrightarrow> f (xs ! i) = Inr (ys ! i)"
  by (induction xs arbitrary: ys i) (auto split: sum.splits simp: nth_Cons split: nat.splits)

subsection \<open>sort\<close>

lemma mset_py_sort: "mset (py_sort k r xs) = mset xs"
  by (simp add: py_sort_def)

lemma set_py_sort: "set (py_sort k r xs) = set xs"
  by (simp add: py_sort_def)

lemma sorted_py_sort:
  "sorted (map k (if r then rev (py_sort k r xs) else py_sort k r xs))"
  by (simp add: py_sort_def)

lemma py_sort_stable:
  "filter (\<lambda>y. k y = v) (py_sort k r xs) = filter (\<lambda>y. k y = v) xs"
  by (simp add: py_sort_def sort_key_stable flip: rev_filter)

lemma py_sort_idem: "py_sort k r (py_sort k r xs) = py_sort k r xs"
  by (simp add: py_sort_def sort_key_id_if_sorted)

lemma sort_key_rev_sorted:
  assumes "distinct (map k ys)" and "sorted (map k ys)"
  shows "sort_key k (rev ys) = ys"
proof (rule sort_key_inj_key_eq)
  show "mset (rev ys) = mset ys" by simp
  from assms(1) show "inj_on k (set (rev ys))" by (simp add: distinct_map)
  from assms(2) show "sorted (map k ys)" .
qed

lemma distinct_map_sort_key:
  "distinct (map k (sort_key k xs)) = distinct (map k xs)"
proof -
  have "mset (map k (sort_key k xs)) = mset (map k xs)" by simp
  then show ?thesis by (rule mset_eq_imp_distinct_iff)
qed

lemma py_sort_toggle:
  assumes "distinct (map k xs)"
  shows "py_sort k (\<not> r) (py_sort k r xs) = rev (py_sort k r xs)"
proof (cases r)
  case True
  have d: "distinct (map k (sort_key k (rev xs)))"
    using assms by (simp add: distinct_map_sort_key distinct_rev rev_map[symmetric] del: rev_map)
  show ?thesis using True by (simp add: py_sort_def sort_key_rev_sorted[OF d])
next
  case False
  have d: "distinct (map k (sort_key k xs))" using assms by (simp add: distinct_map_sort_key)
  show ?thesis using False by (simp add: py_sort_def sort_key_rev_sorted[OF d])
qed

lemma elem_getitem_Inr:
  "elem_getitem e i = Inr v \<Longrightarrow> \<exists>xs. e = Plain xs \<and> i < length xs \<and> v = xs ! i"
  by (cases e) (auto simp: elem_getitem_def list_get_def row_getitem_def split: if_splits sum.splits)



lemma sort_table_Some: "sort_table cn r t = (Some e, t1) \<Longrightarrow> t1 = t"
  by (auto simp: sort_table_def Let_def split: option.splits if_splits sum.splits)

lemma sort_table_None:
  assumes "sort_table c r t = (None, t')"
  shows "\<exists>c'. resolve_column c (options t) = Some c' \<and> c' \<in> set (default_columns t)
          \<and> t' = t\<lparr>table := py_sort (cell (index_of (default_columns t) c')) r (table t),
                     options := (options t)\<lparr>opt_sorted_by := Some (c', r)\<rparr>\<rparr>"
  using assms
  by (auto simp: sort_table_def Let_def split: option.splits if_splits sum.splits)

lemma sort_table_None_keys:
  assumes "sort_table cn r t = (None, t')" and "resolve_column cn (options t) = Some c"
  shows "\<forall>e\<in>set (table t). \<exists>v. elem_getitem e (index_of (default_columns t) c) = Inr v"
proof -
  from assms obtain ks where
    "map_result (\<lambda>row. elem_getitem row (index_of (default_columns t) c)) (table t) = Inr ks"
    by (auto simp: sort_table_def Let_def split: if_splits sum.splits)
  then show ?thesis
    using map_result_ok_iff[of "\<lambda>row. elem_getitem row (index_of (default_columns t) c)" "table t"]
    by blast
qed

lemma sort_table_run_resolved:
  assumes "resolve_column cn (options t) = Some c" and "c \<in> set (default_columns t)"
    and "\<forall>e\<in>set (table t). \<exists>v. elem_getitem e (index_of (default_columns t) c) = Inr v"
  shows "sort_table cn r t =
     (None, t\<lparr>table := py_sort (cell (index_of (default_columns t) c)) r (table t),
                options := (options t)\<lparr>opt_sorted_by := Some (c, r)\<rparr>\<rparr>)"
proof -
  from assms(3) obtain ks where
    "map_result (\<lambda>row. elem_getitem row (index_of (default_columns t) c)) (table t) = Inr ks"
    using map_result_ok_iff[of "\<lambda>row. elem_getitem row (index_of (default_columns t) c)" "table t"]
    by blast
  with assms(1,2) show ?thesis
    by (simp add: sort_table_def Let_def)
qed

lemma resolve_column_recorded:
  "resolve_column cn opts = Some c \<Longrightarrow>
   resolve_column cn (opts\<lparr>opt_sorted_by := Some (c, r)\<rparr>) = Some c"
  by (auto simp: resolve_column_def split: if_splits)

lemma resolve_column_given:
  "n \<noteq> [] \<or> opt_sorted_by opts = None \<Longrightarrow> resolve_column (Some n) opts = Some n"
  by (auto simp: resolve_column_def)

text \<open>
  C5, as amended. \<^verbatim>\<open>sort(column, reverse)\<close> either raises and leaves the table as it
  was, or returns, and then it has sorted by one column of the table: the column given,
  except that for an empty (or omitted) name with a sort recorded in the options it is
  the recorded column. In that case the rows are a permutation of the rows before, every
  row is a plain list reaching that column's index and its key is the raw string there,
  the keys are in ascending string order (descending with \<^verbatim>\<open>reverse\<close>), and rows
  with equal keys keep their order (the sort is stable). Sorting again with the same
  arguments returns and changes nothing, and when the keys are pairwise distinct,
  sorting again with \<^verbatim>\<open>reverse\<close> toggled returns exactly the reversed rows.
\<close>

theorem sort_stable_idempotent:
  assumes "sort_table cn r t = (res, t1)"
  shows "(res \<noteq> None \<longrightarrow> t1 = t)
    \<and> (res = None \<longrightarrow>
         (\<exists>c. resolve_column cn (options t) = Some c \<and> c \<in> set (default_columns t)
            \<and> (\<forall>n. cn = Some n \<and> (n \<noteq> [] \<or> opt_sorted_by (options t) = None) \<longrightarrow> c = n)
            \<and> mset (table t1) = mset (table t)
            \<and> (\<forall>e\<in>set (table t). \<exists>xs. e = Plain xs \<and> index_of (default_columns t) c < length xs
                  \<and> cell (index_of (default_columns t) c) e = xs ! index_of (default_columns t) c)
            \<and> sorted (map (cell (index_of (default_columns t) c))
                  (if r then rev (table t1) else table t1))
            \<and> (\<forall>v. filter (\<lambda>e. cell (index_of (default_columns t) c) e = v) (table t1)
                    = filter (\<lambda>e. cell (index_of (default_columns t) c) e = v) (table t))
            \<and> sort_table cn r t1 = (None, t1)
            \<and> (distinct (map (cell (index_of (default_columns t) c)) (table t)) \<longrightarrow>
                 (\<exists>t2. sort_table cn (\<not> r) t1 = (None, t2) \<and> table t2 = rev (table t1)))))"
proof (intro conjI impI)
  assume "res \<noteq> None"
  then obtain e where "res = Some e" by auto
  with assms show "t1 = t" by (auto dest: sort_table_Some)
next
  assume "res = None"
  with assms have st: "sort_table cn r t = (None, t1)" by simp
  from sort_table_None[OF st] obtain c where rc: "resolve_column cn (options t) = Some c"
    and cin: "c \<in> set (default_columns t)"
    and t1: "t1 = t\<lparr>table := py_sort (cell (index_of (default_columns t) c)) r (table t),
                options := (options t)\<lparr>opt_sorted_by := Some (c, r)\<rparr>\<rparr>"
    by blast
  define i where "i = index_of (default_columns t) c"
  note ks = sort_table_None_keys[OF st rc, folded i_def]
  have tab: "table t1 = py_sort (cell i) r (table t)" by (simp add: t1 i_def)
  have dc: "default_columns t1 = default_columns t" by (simp add: t1)
  have op: "options t1 = (options t)\<lparr>opt_sorted_by := Some (c, r)\<rparr>" by (simp add: t1)
  have rc1: "resolve_column cn (options t1) = Some c"
    unfolding op using rc by (rule resolve_column_recorded)
  have ok1: "\<forall>e\<in>set (table t1). \<exists>v. elem_getitem e (index_of (default_columns t1) c) = Inr v"
    using ks by (simp add: tab dc set_py_sort i_def)
  have c1: "c \<in> set (default_columns t1)" using cin by (simp add: dc)
  have G: "\<forall>n. cn = Some n \<and> (n \<noteq> [] \<or> opt_sorted_by (options t) = None) \<longrightarrow> c = n"
    using rc by (auto simp: resolve_column_given)
  have A: "mset (table t1) = mset (table t)" by (simp add: tab mset_py_sort)
  have B: "\<forall>e\<in>set (table t). \<exists>xs. e = Plain xs \<and> i < length xs \<and> cell i e = xs ! i"
  proof
    fix e assume "e \<in> set (table t)"
    with ks obtain v where v: "elem_getitem e i = Inr v" by blast
    from elem_getitem_Inr[OF v] v show "\<exists>xs. e = Plain xs \<and> i < length xs \<and> cell i e = xs ! i"
      by (auto simp: cell_def)
  qed
  have C: "sorted (map (cell i) (if r then rev (table t1) else table t1))"
    unfolding tab by (rule sorted_py_sort)
  have D: "\<forall>v. filter (\<lambda>e. cell i e = v) (table t1) = filter (\<lambda>e. cell i e = v) (table t)"
    by (simp add: tab py_sort_stable)
  have E: "sort_table cn r t1 = (None, t1)"
    unfolding sort_table_run_resolved[OF rc1 c1 ok1]
    by (simp add: t1 py_sort_idem)
  have F: "\<exists>t2. sort_table cn (\<not> r) t1 = (None, t2) \<and> table t2 = rev (table t1)"
    if "distinct (map (cell i) (table t))"
    unfolding sort_table_run_resolved[OF rc1 c1 ok1]
    using that by (simp add: dc tab py_sort_toggle i_def)
  from rc cin G A B C D E F
  show "\<exists>c. resolve_column cn (options t) = Some c \<and> c \<in> set (default_columns t)
            \<and> (\<forall>n. cn = Some n \<and> (n \<noteq> [] \<or> opt_sorted_by (options t) = None) \<longrightarrow> c = n)
            \<and> mset (table t1) = mset (table t)
            \<and> (\<forall>e\<in>set (table t). \<exists>xs. e = Plain xs \<and> index_of (default_columns t) c < length xs
                  \<and> cell (index_of (default_columns t) c) e = xs ! index_of (default_columns t) c)
            \<and> sorted (map (cell (index_of (default_columns t) c))
                  (if r then rev (table t1) else table t1))
            \<and> (\<forall>v. filter (\<lambda>e. cell (index_of (default_columns t) c) e = v) (table t1)
                    = filter (\<lambda>e. cell (index_of (default_columns t) c) e = v) (table t))
            \<and> sort_table cn r t1 = (None, t1)
            \<and> (distinct (map (cell (index_of (default_columns t) c)) (table t)) \<longrightarrow>
                 (\<exists>t2. sort_table cn (\<not> r) t1 = (None, t2) \<and> table t2 = rev (table t1)))"
    unfolding i_def by blast
qed

theorem sort_stable_idempotent_witness:
  "init authors no_options = Inr authors_table
   \<and> sort_table (Some ''Number of Pages'') True authors_table = (None, authors_by_pages)
   \<and> sort_table (Some ''Number of Pages'') True authors_by_pages = (None, authors_by_pages)
   \<and> (\<exists>t2. sort_table (Some ''Number of Pages'') False authors_by_pages = (None, t2)
          \<and> table t2 = rev (table authors_by_pages))"
proof -
  have i: "init authors no_options = Inr authors_table" by code_simp
  have h: "sort_table (Some ''Number of Pages'') True authors_table = (None, authors_by_pages)"
    by code_simp
  have d: "distinct (map (cell (index_of (default_columns authors_table) ''Number of Pages''))
             (table authors_table))"
    by code_simp
  from sort_stable_idempotent[OF h] obtain c where
    g: "\<forall>n. Some ''Number of Pages'' = Some n
             \<and> (n \<noteq> [] \<or> opt_sorted_by (options authors_table) = None) \<longrightarrow> c = n"
    and e: "sort_table (Some ''Number of Pages'') True authors_by_pages = (None, authors_by_pages)"
    and f: "distinct (map (cell (index_of (default_columns authors_table) c)) (table authors_table))
       \<longrightarrow> (\<exists>t2. sort_table (Some ''Number of Pages'') (\<not> True) authors_by_pages = (None, t2)
              \<and> table t2 = rev (table authors_by_pages))"
    by blast
  from g have c: "c = ''Number of Pages''" by simp
  from f d have "\<exists>t2. sort_table (Some ''Number of Pages'') (\<not> True) authors_by_pages = (None, t2)
          \<and> table t2 = rev (table authors_by_pages)"
    unfolding c by blast
  then have f': "\<exists>t2. sort_table (Some ''Number of Pages'') False authors_by_pages = (None, t2)
          \<and> table t2 = rev (table authors_by_pages)"
    by simp
  from i h e f' show ?thesis by blast
qed

text \<open>
  C5 as stated fails for a column whose name is the empty string: after
  \<^verbatim>\<open>sort('B')\<close> on a table with the columns \<open>''\<close> and \<open>B\<close>, \<^verbatim>\<open>sort('')\<close>
  returns having sorted by \<open>B\<close> again, and the rows are not in the order of the column
  that was named.
\<close>

theorem sort_empty_column_counterexample:
  "sort_table (Some ''B'') False
      (init_fields [[], ''B''] [Plain [''2'', ''x''], Plain [''1'', ''y'']] no_options)
     = (None, blank_header_sorted)
   \<and> [] \<in> set (default_columns blank_header_sorted)
   \<and> sort_table (Some []) False blank_header_sorted = (None, blank_header_sorted)
   \<and> \<not> sorted (map (cell (index_of (default_columns blank_header_sorted) []))
          (table blank_header_sorted))"
  by code_simp

subsection \<open>facet_by, filter and transpose at concrete tables\<close>

text \<open>
  C1, at a table with an empty cell in the facet column. \<^verbatim>\<open>facet_by\<close> tests
  \<^verbatim>\<open>if row[column]:\<close> on a Datum, which is always true, so the row with the empty
  value is not left out: it comes back as a facet of its own, faceted on the empty
  string and sorted first.
\<close>

theorem facet_by_keeps_empty_value:
  "(case init with_blank no_options of
      Inl e \<Rightarrow> Inl e
    | Inr t \<Rightarrow> facets_summary (facet_by ''Style'' t))
   = Inr [(Some [], [Plain [''Anonymous'', []]]),
          (Some ''Minimalism'', [Plain [''Nicholson Baker'', ''Minimalism'']]),
          (Some ''Modernism'', [Plain [''Samuel Beckett'', ''Modernism'']])]"
  by code_simp

text \<open>
  C4, at a table that has been sorted. \<^verbatim>\<open>filter\<close> hands the accepted \<^verbatim>\<open>Row\<close>
  objects and \<^verbatim>\<open>self.options\<close> to the constructor; the recorded \<^verbatim>\<open>sorted_by\<close>
  makes the constructor sort, \<^verbatim>\<open>row[index]\<close> on a \<^verbatim>\<open>Row\<close> object looks the
  integer up as a column name, and the KeyError leaves \<^verbatim>\<open>filter\<close>: no table is
  returned.
\<close>

theorem filter_of_sorted_table_raises:
  "(case init authors no_options of
      Inl e \<Rightarrow> Inl e
    | Inr t \<Rightarrow>
        (case sort_table (Some ''Author'') False t of
           (Some e, t') \<Rightarrow> Inl e
         | (None, t') \<Rightarrow> filter_table (\<lambda>r. True) t'))
   = Inl (Err KeyError (NotAColumn (Position 0)))"
  by code_simp

text \<open>
  C7, at a table built with a \<^verbatim>\<open>columns\<close> override. \<^verbatim>\<open>transpose\<close> builds the
  new table from \<^verbatim>\<open>self.options\<close>, not from the copy it removed \<^verbatim>\<open>'columns'\<close>
  from, so the transposed table has the same override, in \<^verbatim>\<open>_columns\<close> and in its
  options.
\<close>

theorem transpose_keeps_columns_override:
  "(case init authors (no_options\<lparr>opt_columns := Some [''Style'', ''Author'']\<rparr>) of
      Inl e \<Rightarrow> Inl e
    | Inr t \<Rightarrow>
        (case transpose_table t of
           Inl e \<Rightarrow> Inl e
         | Inr t' \<Rightarrow> Inr (private_columns t', opt_columns (options t'), columns t')))
   = Inr ([''Style'', ''Author''], Some [''Style'', ''Author''], [''Style'', ''Author''])"
  by code_simp

subsection \<open>Row.items and dict\<close>

lemma index_of_less: "x \<in> set xs \<Longrightarrow> index_of xs x < length xs"
  by (induction xs) auto

lemma nth_index_of: "x \<in> set xs \<Longrightarrow> xs ! index_of xs x = x"
  by (induction xs) auto

lemma map_result_Inr_mem:
  "map_result f xs = Inr ys \<Longrightarrow> y \<in> set ys \<Longrightarrow> \<exists>x\<in>set xs. f x = Inr y"
  by (induction xs arbitrary: ys) (auto split: sum.splits)

lemma row_getitem_known:
  assumes "c \<in> set (table_default_columns r)"
    and "index_of (table_default_columns r) c < length (cells r)"
  shows "row_getitem r (Name c) =
     Inr \<lparr>value = cells r ! index_of (table_default_columns r) c, datum_row_num = row_num r,
          column_name = c\<rparr>"
  using assms by (simp add: row_getitem_def list_get_def)

lemma row_items_values_raw:
  assumes "row_items r = Inr kvs" and "(k, v) \<in> set kvs"
  shows "\<exists>s. v = Str s"
proof -
  from assms(1) obtain vs where "kvs = zip (row_keys r) (map Str vs)"
    by (auto simp: row_items_def split: sum.splits)
  with assms(2) have "v \<in> set (map Str vs)" by (auto dest: set_zip_rightD)
  then show ?thesis by auto
qed

lemma table_dict_values_raw:
  assumes "table_dict t = Inr ds" and "d \<in> set ds" and "d k = Some v"
  shows "\<exists>s. v = Str s"
proof -
  from map_result_Inr_mem[OF assms(1)[unfolded table_dict_def] assms(2)]
  obtain i e r kvs where "row_items r = Inr kvs" and d: "d = py_dict kvs"
    by (auto split: sum.splits)
  moreover from d assms(3) have "(k, v) \<in> set kvs"
    by (auto simp: py_dict_def dest: map_of_SomeD)
  ultimately show ?thesis by (blast dest: row_items_values_raw)
qed

text \<open>
  C2, as amended. For every row whose active columns are all among the default columns
  and within the row's cells, \<^verbatim>\<open>Row.items()\<close> is the list, in the order of the
  active columns, of each column name paired with the raw string of that cell: the
  \<^verbatim>\<open>.value\<close> of the Datum that \<^verbatim>\<open>row[name]\<close> resolves to, not the Datum. Every
  value of every dictionary of \<^verbatim>\<open>TableFu.dict()\<close> is such a raw string.
\<close>

theorem row_items_raw_values:
  assumes "set (table_columns r) \<subseteq> set (table_default_columns r)"
    and "\<forall>c\<in>set (table_columns r). index_of (table_default_columns r) c < length (cells r)"
  shows "row_data r =
       Inr (map (\<lambda>c. \<lparr>value = cells r ! index_of (table_default_columns r) c,
                       datum_row_num = row_num r, column_name = c\<rparr>) (table_columns r))
    \<and> row_items r =
       Inr (map (\<lambda>c. (c, Str (cells r ! index_of (table_default_columns r) c))) (table_columns r))
    \<and> (\<forall>t ds d k v. table_dict t = Inr ds \<and> d \<in> set ds \<and> d k = Some v \<longrightarrow> (\<exists>s. v = Str s))"
proof -
  have D: "row_data r =
       Inr (map (\<lambda>c. \<lparr>value = cells r ! index_of (table_default_columns r) c,
                       datum_row_num = row_num r, column_name = c\<rparr>) (table_columns r))"
    unfolding row_data_def
    by (rule map_result_Inr_map) (use assms in \<open>auto intro!: row_getitem_known\<close>)
  have I: "row_items r =
       Inr (map (\<lambda>c. (c, Str (cells r ! index_of (table_default_columns r) c))) (table_columns r))"
    by (simp add: row_items_def row_values_def row_keys_def D zip_map2 zip_same_conv_map comp_def)
  from D I show ?thesis by (blast dest: table_dict_values_raw)
qed

theorem row_items_raw_values_witness:
  "row_items beckett_row = Inr [(''Style'', Str ''Modernism''), (''Author'', Str ''Samuel Beckett'')]"
proof -
  have a: "set (table_columns beckett_row) \<subseteq> set (table_default_columns beckett_row)"
    by code_simp
  have b: "\<forall>c\<in>set (table_columns beckett_row).
      index_of (table_default_columns beckett_row) c < length (cells beckett_row)"
    by code_simp
  from row_items_raw_values[OF a b]
  have "row_items beckett_row =
       Inr (map (\<lambda>c. (c, Str (cells beckett_row ! index_of (table_default_columns beckett_row) c)))
          (table_columns beckett_row))"
    by blast
  also have "\<dots> = Inr [(''Style'', Str ''Modernism''), (''Author'', Str ''Samuel Beckett'')]"
    by code_simp
  finally show ?thesis .
qed

text \<open>
  C2 as stated fails: at a concrete row the pairs hold the raw strings, and the list
  differs from the one that pairs the names with the Datum objects.
\<close>

theorem row_items_not_datum_counterexample:
  "row_items beckett_row = Inr [(''Style'', Str ''Modernism''), (''Author'', Str ''Samuel Beckett'')]
   \<and> row_items_spec beckett_row =
       Inr [(''Style'', DatumObj \<lparr>value = ''Modernism'', datum_row_num = 0, column_name = ''Style''\<rparr>),
            (''Author'', DatumObj \<lparr>value = ''Samuel Beckett'', datum_row_num = 0, column_name = ''Author''\<rparr>)]
   \<and> row_items beckett_row \<noteq> row_items_spec beckett_row"
  by code_simp

subsection \<open>total\<close>








subsection \<open>Unknown columns\<close>

lemma elem_getitem_Inl:
  "elem_getitem e i = Inl err \<Longrightarrow>
     err = Err IndexError ListIndex \<or> err = Err KeyError (NotAColumn (Position i))"
  by (cases e) (auto simp: elem_getitem_def list_get_def row_getitem_def split: if_splits sum.splits)














subsection \<open>transpose\<close>

lemma swap_axes_involution:
  assumes "g \<noteq> []" and "\<forall>row\<in>set g. length row = n" and "0 < n"
  shows "swap_axes (swap_axes g) = g"
proof -
  from assms(1,2) have hd_len: "length (hd g) = n" by (cases g) auto
  have len1: "length (swap_axes g) = n" by (simp add: swap_axes_def hd_len)
  with assms(3) have ne: "swap_axes g \<noteq> []" by auto
  have "hd (swap_axes g) = swap_axes g ! 0" using ne by (simp add: hd_conv_nth)
  also have "\<dots> = map (\<lambda>row. row ! 0) g" using assms(3) by (simp add: swap_axes_def hd_len)
  finally have hd1: "length (hd (swap_axes g)) = length g" by simp
  show ?thesis
  proof (rule nth_equalityI)
    show "length (swap_axes (swap_axes g)) = length g"
      by (simp add: swap_axes_def[of "swap_axes g"] hd1)
  next
    fix j assume "j < length (swap_axes (swap_axes g))"
    then have j: "j < length g" by (simp add: swap_axes_def[of "swap_axes g"] hd1)
    then have lj: "length (g ! j) = n" using assms(2) by simp
    have "swap_axes (swap_axes g) ! j = map (\<lambda>r. r ! j) (swap_axes g)"
      using j by (simp add: swap_axes_def[of "swap_axes g"] hd1)
    also have "\<dots> = map (\<lambda>i. g ! j ! i) [0 ..< n]"
      using j by (simp add: swap_axes_def hd_len)
    also have "\<dots> = g ! j" using map_nth[of "g ! j"] by (simp add: lj)
    finally show "swap_axes (swap_axes g) ! j = g ! j" .
  qed
qed

lemma swap_axes_rows:
  assumes "g \<noteq> []" and "\<forall>row\<in>set g. length row = n"
  shows "length (swap_axes g) = n" and "\<forall>row\<in>set (swap_axes g). length row = length g"
proof -
  from assms have hd_len: "length (hd g) = n" by (cases g) auto
  show "length (swap_axes g) = n" by (simp add: swap_axes_def hd_len)
  show "\<forall>row\<in>set (swap_axes g). length row = length g" by (auto simp: swap_axes_def)
qed

lemma rectangular_Plain:
  "rectangular t \<Longrightarrow> plain_rows t \<Longrightarrow> e \<in> set (table t) \<Longrightarrow>
     \<exists>xs. e = Plain xs \<and> length xs = length (default_columns t)"
  by (cases e) (auto simp: rectangular_def plain_rows_def list_all_iff)

lemma plain_rows_body: "plain_rows t \<Longrightarrow> map Plain (map header_of (table t)) = table t"
proof -
  assume r: "plain_rows t"
  have "map (\<lambda>e. Plain (header_of e)) (table t) = map (\<lambda>e. e) (table t)"
  proof (rule map_cong)
    fix e assume "e \<in> set (table t)"
    with r show "Plain (header_of e) = e"
      by (cases e) (auto simp: plain_rows_def list_all_iff)
  qed simp
  then show ?thesis by (simp add: comp_def)
qed

lemma transpose_table_rectangular:
  assumes "rectangular t" and "plain_rows t" and "default_columns t \<noteq> []"
    and "opt_sorted_by (options t) = None"
  shows "transpose_table t =
     Inr (init_fields (hd (swap_axes (default_columns t # map header_of (table t))))
            (map Plain (tl (swap_axes (default_columns t # map header_of (table t)))))
            (options t))"
proof -
  let ?tbl = "Plain (default_columns t) # table t"
  let ?n = "length (default_columns t)"
  let ?g = "default_columns t # map header_of (table t)"
  have el: "\<exists>xs. e = Plain xs \<and> length xs = ?n" if "e \<in> set ?tbl" for e
    using that rectangular_Plain[OF assms(1,2)] by auto
  have inner: "map_result (\<lambda>row. elem_getitem row i) ?tbl
      = Inr (map (\<lambda>row. header_of row ! i) ?tbl)"
    if "i < ?n" for i
  proof (rule map_result_Inr_map)
    fix e assume "e \<in> set ?tbl"
    from el[OF this] obtain xs where "e = Plain xs" "length xs = ?n" by blast
    with that show "elem_getitem e i = Inr (header_of e ! i)"
      by (simp add: elem_getitem_def list_get_def)
  qed
  have sw: "map (\<lambda>i. map (\<lambda>row. header_of row ! i) ?tbl) [0 ..< ?n] = swap_axes ?g"
    by (simp add: swap_axes_def comp_def)
  have outer: "map_result (\<lambda>i. map_result (\<lambda>row. elem_getitem row i) ?tbl) [0 ..< ?n]
      = Inr (swap_axes ?g)"
    unfolding sw[symmetric] by (rule map_result_Inr_map) (simp only: inner set_upt atLeastLessThan_iff)
  have len: "length (swap_axes ?g) = ?n" by (simp add: swap_axes_def)
  with assms(3) have "swap_axes ?g \<noteq> []" by auto
  then obtain h rest where hr: "swap_axes ?g = h # rest" by (cases "swap_axes ?g") auto
  have "transpose_table t = init (map Plain (swap_axes ?g)) (options t)"
    unfolding transpose_table_def Let_def list.sel header_of.simps outer
    by (simp only: sum.case)
  also have "\<dots> = Inr (init_fields (hd (swap_axes ?g)) (map Plain (tl (swap_axes ?g))) (options t))"
    using assms(4) by (simp add: init_def hr)
  finally show ?thesis .
qed

text \<open>
  C6, as amended. For every rectangular table whose body rows are plain lists (not the
  \<^verbatim>\<open>Row\<close> objects of a table that \<^verbatim>\<open>filter\<close> returned), with at least one column
  and no sort recorded in its options, \<^verbatim>\<open>transpose\<close> returns, \<^verbatim>\<open>transpose\<close> of
  the result returns, and the raw grid (header row included) of the second result is
  the raw grid of the table. The first result has one column more than the table has
  rows, and one row less than the table has columns.
\<close>

theorem transpose_involution:
  assumes "rectangular t" and "plain_rows t" and "default_columns t \<noteq> []"
    and "opt_sorted_by (options t) = None"
  shows "\<exists>t1 t2. transpose_table t = Inr t1 \<and> transpose_table t1 = Inr t2
           \<and> raw_grid t2 = raw_grid t
           \<and> length (default_columns t1) = length (table t) + 1
           \<and> length (table t1) + 1 = length (default_columns t)"
proof -
  define g where "g = default_columns t # map header_of (table t)"
  define n where "n = length (default_columns t)"
  define t1 where "t1 = init_fields (hd (swap_axes g)) (map Plain (tl (swap_axes g))) (options t)"
  have n: "0 < n" using assms(3) by (simp add: n_def)
  have rows: "\<forall>row\<in>set g. length row = n"
  proof
    fix row assume "row \<in> set g"
    then consider "row = default_columns t" | e where "e \<in> set (table t)" "row = header_of e"
      by (auto simp: g_def)
    then show "length row = n"
    proof cases
      case 1
      then show ?thesis by (simp add: n_def)
    next
      case 2
      from rectangular_Plain[OF assms(1,2) 2(1)] 2(2) show ?thesis by (auto simp: n_def)
    qed
  qed
  have gne: "g \<noteq> []" by (simp add: g_def)
  note sr = swap_axes_rows[OF gne rows]
  from sr(1) n have sne: "swap_axes g \<noteq> []" by auto
  have T1: "transpose_table t = Inr t1"
    unfolding t1_def g_def by (rule transpose_table_rectangular[OF assms])
  have dc1: "default_columns t1 = hd (swap_axes g)" by (simp add: t1_def init_fields_def)
  have tb1: "table t1 = map Plain (tl (swap_axes g))" by (simp add: t1_def init_fields_def)
  have op1: "options t1 = options t" by (simp add: t1_def init_fields_def)
  have hdlen: "length (hd (swap_axes g)) = length g" using sr(2) sne by (cases "swap_axes g") auto
  have r1: "rectangular t1"
    using sr(2) sne
    by (cases "swap_axes g") (auto simp: rectangular_def list_all_iff dc1 tb1)
  have p1: "plain_rows t1" by (auto simp: plain_rows_def list_all_iff tb1)
  have d1: "default_columns t1 \<noteq> []" using hdlen gne by (auto simp: dc1)
  have s1: "opt_sorted_by (options t1) = None" using assms(4) by (simp add: op1)
  have g1: "default_columns t1 # map header_of (table t1) = swap_axes g"
    using sne by (simp add: dc1 tb1 comp_def)
  define t2 where "t2 = init_fields (hd (swap_axes (swap_axes g)))
      (map Plain (tl (swap_axes (swap_axes g)))) (options t1)"
  have T2: "transpose_table t1 = Inr t2"
    unfolding t2_def g1[symmetric] by (rule transpose_table_rectangular[OF r1 p1 d1 s1])
  have inv: "swap_axes (swap_axes g) = g" by (rule swap_axes_involution[OF gne rows n])
  have "raw_grid t2 = Plain (hd g) # map Plain (tl g)"
    by (simp add: raw_grid_def t2_def init_fields_def inv)
  also have "\<dots> = Plain (default_columns t) # map Plain (map header_of (table t))"
    by (simp add: g_def)
  also have "\<dots> = raw_grid t" by (simp only: plain_rows_body[OF assms(2)] raw_grid_def)
  finally have G: "raw_grid t2 = raw_grid t" .
  have lg: "length g = length (table t) + 1" by (simp add: g_def)
  have L1: "length (default_columns t1) = length (table t) + 1"
    by (simp only: dc1 hdlen lg)
  have L2: "length (table t1) + 1 = length (default_columns t)"
    using sr(1) n by (simp add: tb1 n_def)
  from T1 T2 G L1 L2 show ?thesis by blast
qed

theorem transpose_involution_witness:
  "\<exists>t1 t2. transpose_table authors_table = Inr t1 \<and> transpose_table t1 = Inr t2
      \<and> raw_grid t2 = raw_grid authors_table
      \<and> length (default_columns t1) = length (table authors_table) + 1
      \<and> length (table t1) + 1 = length (default_columns authors_table)"
proof -
  have a: "rectangular authors_table" by code_simp
  have p: "plain_rows authors_table" by code_simp
  have b: "default_columns authors_table \<noteq> []" by code_simp
  have c: "opt_sorted_by (options authors_table) = None" by code_simp
  from transpose_involution[OF a p b c] show ?thesis .
qed

text \<open>
  C6 as stated fails on three rectangular tables: a table without columns, where the
  constructor finds nothing to pop; the docstring's table once it has been sorted,
  where the constructor sorts the transposed rows by a column they do not have; and the
  table \<^verbatim>\<open>filter\<close> returns for the docstring's table, which has four columns, four
  rows of four cells and no sort recorded, and whose rows are \<^verbatim>\<open>Row\<close> objects, so
  that \<^verbatim>\<open>row[i]\<close> raises KeyError.
\<close>

theorem transpose_involution_counterexample:
  "rectangular no_columns_table
   \<and> transpose_table no_columns_table = Inl (Err IndexError PopEmpty)
   \<and> rectangular authors_by_pages
   \<and> transpose_table authors_by_pages = Inl (Err ValueError (NotAColumn (Name ''Number of Pages'')))
   \<and> filter_table (\<lambda>r. True) authors_table = Inr authors_filtered
   \<and> rectangular authors_filtered
   \<and> default_columns authors_filtered \<noteq> []
   \<and> opt_sorted_by (options authors_filtered) = None
   \<and> transpose_table authors_filtered = Inl (Err KeyError (NotAColumn (Position 0)))"
  by code_simp

subsection \<open>The caller's list\<close>

lemma retable_simps [simp]:
  "table (retable t x) = x"
  "default_columns (retable t x) = default_columns t"
  "options (retable t x) = options t"
  by (simp_all add: retable_def)

lemma init_fields_simps [simp]:
  "table (init_fields h x opts) = x"
  "default_columns (init_fields h x opts) = h"
  "options (init_fields h x opts) = opts"
  by (simp_all add: init_fields_def)








subsection \<open>What filter, transpose and facet_by do in general\<close>

text \<open>
  The order in which the dictionary of \<^verbatim>\<open>facet_by\<close> is iterated does not matter:
  a sort by pairwise distinct keys gives the same list for every order of its input.
\<close>

lemma py_sort_order_independent:
  assumes "distinct (map k xs)" and "mset xs = mset ys"
  shows "py_sort k r xs = py_sort k r ys"
proof -
  have inj: "inj_on k (set zs)" if "mset zs = mset xs" for zs
  proof -
    from that have "mset (map k zs) = mset (map k xs)" by simp
    with assms(1) have "distinct (map k zs)" by (metis mset_eq_imp_distinct_iff)
    then show ?thesis by (simp add: distinct_map)
  qed
  have a: "sort_key k xs = sort_key k ys"
    by (rule sort_key_inj_key_eq) (use assms inj[of xs] in simp_all)
  have b: "sort_key k (rev xs) = sort_key k (rev ys)"
    by (rule sort_key_inj_key_eq) (use assms inj[of "rev xs"] in simp_all)
  show ?thesis by (simp add: py_sort_def a b)
qed

text \<open>
  The constructor takes the \<^verbatim>\<open>columns\<close> override, the formatting and the style from
  the options it is given, and \<^verbatim>\<open>transpose\<close> gives it the options of the table
  unchanged: whenever \<^verbatim>\<open>transpose\<close> returns, the new table has the override of the
  old one.
\<close>

lemma init_no_sort:
  "opt_sorted_by opts = None \<Longrightarrow> init (h # body) opts = Inr (init_fields (header_of h) body opts)"
  by (simp add: init_def)

lemma init_Inr_configuration:
  assumes "init tbl opts = Inr t'"
  shows "private_columns t' = (case opt_columns opts of None \<Rightarrow> [] | Some cs \<Rightarrow> cs)
    \<and> opt_columns (options t') = opt_columns opts
    \<and> formatting t' = (case opt_formatting opts of None \<Rightarrow> [] | Some f \<Rightarrow> f)
    \<and> style t' = (case opt_style opts of None \<Rightarrow> [] | Some s \<Rightarrow> s)
    \<and> opt_formatting (options t') = opt_formatting opts
    \<and> opt_style (options t') = opt_style opts"
proof (cases tbl)
  case Nil
  with assms show ?thesis by (simp add: init_def)
next
  case (Cons h body)
  show ?thesis
  proof (cases "opt_sorted_by opts")
    case None
    with assms Cons show ?thesis by (auto simp: init_def init_fields_def)
  next
    case (Some cr)
    obtain col rv where cr: "cr = (col, rv)" by (cases cr)
    from assms Cons Some cr
    have "sort_table (Some col) rv (init_fields (header_of h) body opts) = (None, t')"
      by (auto simp: init_def split: prod.splits option.splits)
    from sort_table_None[OF this] show ?thesis by (auto simp: init_fields_def)
  qed
qed

lemma transpose_table_keeps_configuration:
  assumes "transpose_table t = Inr t'"
  shows "private_columns t' = (case opt_columns (options t) of None \<Rightarrow> [] | Some cs \<Rightarrow> cs)
    \<and> opt_columns (options t') = opt_columns (options t)
    \<and> opt_formatting (options t') = opt_formatting (options t)
    \<and> opt_style (options t') = opt_style (options t)"
proof -
  from assms obtain result where "init (map Plain result) (options t) = Inr t'"
    by (auto simp: transpose_table_def Let_def split: sum.splits)
  from init_Inr_configuration[OF this] show ?thesis by simp
qed

text \<open>
  \<^verbatim>\<open>filter\<close> on a table with no sort recorded returns the header followed by the
  accepted \<^verbatim>\<open>Row\<close> objects, in their order; on a table with a sort recorded it
  raises as soon as one row is accepted.
\<close>

lemma filter_table_no_sort:
  assumes "opt_sorted_by (options t) = None" and "rows t = Inr rs"
  shows "filter_table p t =
     Inr (init_fields (default_columns t) (map Wrapped (filter p rs)) (options t))"
  using assms by (simp add: filter_table_def init_no_sort)

lemma filter_table_kept_rows:
  assumes "opt_sorted_by (options t) = None" and "rows t = Inr rs"
  shows "\<exists>t'. filter_table p t = Inr t'
     \<and> raw_grid t' = Plain (default_columns t) # map Wrapped (filter p rs)
     \<and> (\<forall>e\<in>set (table t'). \<exists>r. e = Wrapped r \<and> r \<in> set rs \<and> p r)"
  using filter_table_no_sort[OF assms, of p]
  by (auto simp: raw_grid_def)

lemma filter_table_sorted_raises:
  assumes "opt_sorted_by (options t) = Some (c, rv)" and "c \<in> set (default_columns t)"
    and "rows t = Inr rs" and "filter p rs \<noteq> []"
  shows "filter_table p t = Inl (Err KeyError (NotAColumn (Position (index_of (default_columns t) c))))"
proof -
  let ?i = "index_of (default_columns t) c"
  let ?t0 = "init_fields (default_columns t) (map Wrapped (filter p rs)) (options t)"
  from assms(4) obtain r rest where fr: "filter p rs = r # rest" by (cases "filter p rs") auto
  have g: "elem_getitem (Wrapped r) ?i = Inl (Err KeyError (NotAColumn (Position ?i)))"
    by (simp add: elem_getitem_def row_getitem_def)
  have rc: "resolve_column (Some c) (options t) = Some c"
    using assms(1) by (simp add: resolve_column_def)
  have "sort_table (Some c) rv ?t0 = (Some (Err KeyError (NotAColumn (Position ?i))), ?t0)"
    using assms(2) rc g by (simp add: sort_table_def Let_def fr)
  then show ?thesis using assms(1,3) by (simp add: filter_table_def init_def fr)
qed

text \<open>
  \<^verbatim>\<open>facet_by\<close> on a table of plain rows that reach the column: the facets are in
  ascending order of the value they are faceted on, there is exactly one facet for each
  value that occurs in the column, the empty string included, and each facet holds the
  rows with its value, in their original order.
\<close>

lemma facet_add_keys:
  "map fst (facet_add k cs kvs) = (if k \<in> set (map fst kvs) then map fst kvs else map fst kvs @ [k])"
  by (induction kvs) (auto simp: image_iff split: if_splits)

lemma facet_add_distinct:
  "distinct (map fst kvs) \<Longrightarrow> distinct (map fst (facet_add k cs kvs))"
  by (simp add: facet_add_keys)

lemma facet_add_map_of:
  "map_of (facet_add k cs kvs) k' =
     (if k' = k then Some ((case map_of kvs k of None \<Rightarrow> [] | Some v \<Rightarrow> v) @ [cs])
      else map_of kvs k')"
  by (induction kvs) auto

lemma facet_loop_plain:
  assumes "c \<in> set (default_columns t)"
    and "\<forall>(j, e)\<in>set ies. \<exists>xs. e = Plain xs \<and> index_of (default_columns t) c < length xs"
  shows "facet_loop c t ies acc =
     Inr (fold (\<lambda>e. facet_add (cell (index_of (default_columns t) c) e) (header_of e))
            (map snd ies) acc)"
  using assms(2)
proof (induction ies arbitrary: acc)
  case Nil
  then show ?case by simp
next
  case (Cons je ies)
  obtain j e where je: "je = (j, e)" by (cases je)
  from Cons.prems je obtain xs where xs: "e = Plain xs" "index_of (default_columns t) c < length xs"
    by auto
  have r: "mk_row (Plain xs) j t = Inr \<lparr>cells = xs, row_num = j, table_default_columns = default_columns t,
      table_columns = columns t\<rparr>"
    by (simp add: mk_row_def)
  have d: "row_getitem \<lparr>cells = xs, row_num = j, table_default_columns = default_columns t,
      table_columns = columns t\<rparr> (Name c)
     = Inr \<lparr>value = xs ! index_of (default_columns t) c, datum_row_num = j, column_name = c\<rparr>"
    using assms(1) xs by (simp add: row_getitem_def list_get_def)
  have k: "cell (index_of (default_columns t) c) (Plain xs) = xs ! index_of (default_columns t) c"
    using xs by (simp add: cell_def elem_getitem_def list_get_def)
  from Cons.prems have "\<forall>(j, e)\<in>set ies. \<exists>xs. e = Plain xs \<and> index_of (default_columns t) c < length xs"
    by simp
  from Cons.IH[OF this] show ?case
    by (simp add: je xs(1) r d k datum_truth_def)
qed

lemma fold_facet_add:
  assumes "distinct (map fst acc)"
  shows "distinct (map fst (fold (\<lambda>e. facet_add (k e) (h e)) es acc))
    \<and> set (map fst (fold (\<lambda>e. facet_add (k e) (h e)) es acc)) = set (map fst acc) \<union> k ` set es
    \<and> (\<forall>v. map_of (fold (\<lambda>e. facet_add (k e) (h e)) es acc) v =
          (if v \<in> set (map fst acc) \<union> k ` set es
           then Some ((case map_of acc v of None \<Rightarrow> [] | Some u \<Rightarrow> u)
                        @ map h (filter (\<lambda>e. k e = v) es))
           else None))"
  using assms
proof (induction es arbitrary: acc)
  case Nil
  then show ?case by (auto simp: map_of_eq_None_iff split: option.splits)
next
  case (Cons e es)
  let ?acc = "facet_add (k e) (h e) acc"
  have d: "distinct (map fst ?acc)" using Cons.prems by (rule facet_add_distinct)
  have ks: "set (map fst ?acc) = insert (k e) (set (map fst acc))"
    by (auto simp: facet_add_keys)
  note IH = Cons.IH[OF d]
  have none: "map_of acc v = None" if "v \<notin> set (map fst acc)" for v
    using that by (simp add: map_of_eq_None_iff)
  show ?case
  proof (intro conjI allI)
    show "distinct (map fst (fold (\<lambda>e. facet_add (k e) (h e)) (e # es) acc))"
      using IH by simp
    show "set (map fst (fold (\<lambda>e. facet_add (k e) (h e)) (e # es) acc))
        = set (map fst acc) \<union> k ` set (e # es)"
      using IH ks by auto
    fix v
    show "map_of (fold (\<lambda>e. facet_add (k e) (h e)) (e # es) acc) v =
          (if v \<in> set (map fst acc) \<union> k ` set (e # es)
           then Some ((case map_of acc v of None \<Rightarrow> [] | Some u \<Rightarrow> u)
                        @ map h (filter (\<lambda>e. k e = v) (e # es)))
           else None)"
      using IH[THEN conjunct2, THEN conjunct2, THEN spec, of v] ks
      by (auto simp: facet_add_map_of none split: option.splits)
  qed
qed

lemma facet_table_Inr:
  "facet_table t kv =
     Inr ((init_fields (default_columns t) (map Plain (snd kv)) no_options)
            \<lparr>faceted_on := Some (fst kv), formatting := formatting t, options := options t\<rparr>)"
  by (simp add: facet_table_def init_no_sort no_options_def)

lemma facet_by_partition:
  assumes "c \<in> set (default_columns t)"
    and "\<forall>e\<in>set (table t). \<exists>xs. e = Plain xs \<and> index_of (default_columns t) c < length xs"
  shows "\<exists>fts. facet_by c t = Inr fts
     \<and> sorted (map facet_key fts) \<and> distinct (map facet_key fts)
     \<and> set (map facet_key fts) = cell (index_of (default_columns t) c) ` set (table t)
     \<and> (\<forall>ft\<in>set fts. faceted_on ft = Some (facet_key ft)
           \<and> table ft = filter (\<lambda>e. cell (index_of (default_columns t) c) e = facet_key ft) (table t)
           \<and> default_columns ft = default_columns t \<and> formatting ft = formatting t)"
proof -
  define i where "i = index_of (default_columns t) c"
  define F where "F = fold (\<lambda>e. facet_add (cell i e) (header_of e)) (table t) []"
  define ft where "ft = (\<lambda>kv. (init_fields (default_columns t) (map Plain (snd kv)) no_options)
            \<lparr>faceted_on := Some (fst kv), formatting := formatting t, options := options t\<rparr>)"
  have en: "\<forall>(j, e)\<in>set (enumerate 0 (table t)).
      \<exists>xs. e = Plain xs \<and> index_of (default_columns t) c < length xs"
    using assms(2) by (auto simp: in_set_enumerate_eq)
  have loop: "facet_loop c t (enumerate 0 (table t)) [] = Inr F"
    unfolding F_def i_def using facet_loop_plain[OF assms(1) en, of "[]"] by simp
  have "distinct (map fst ([] :: (string \<times> string list list) list))" by simp
  note Fp = fold_facet_add[where acc="[]" and k="cell i" and h=header_of and es="table t",
      OF this, folded F_def]
  from Fp
  have dF: "distinct (map fst F)" and sF: "set (map fst F) = cell i ` set (table t)"
    and mF: "\<And>v. map_of F v = (if v \<in> cell i ` set (table t)
           then Some (map header_of (filter (\<lambda>e. cell i e = v) (table t))) else None)"
    by simp_all
  have vF: "v = map header_of (filter (\<lambda>e. cell i e = k) (table t))" if "(k, v) \<in> set F" for k v
  proof -
    from that dF have "map_of F k = Some v" by simp
    then show ?thesis by (simp add: mF split: if_splits)
  qed
  have tabs: "map_result (facet_table t) F = Inr (map ft F)"
    by (rule map_result_Inr_map) (simp add: facet_table_Inr ft_def)
  have fb: "facet_by c t = Inr (sort_key facet_key (map ft F))"
    by (simp add: facet_by_def loop tabs py_sort_def)
  have fk: "map facet_key (map ft F) = map fst F"
    by (simp add: ft_def facet_key_def comp_def)
  have plain: "map Plain (map header_of (filter P (table t))) = filter P (table t)" for P
  proof -
    have "map (\<lambda>e. Plain (header_of e)) (filter P (table t)) = map (\<lambda>e. e) (filter P (table t))"
      by (rule map_cong) (use assms(2) in auto)
    then show ?thesis by (simp add: comp_def)
  qed
  have A: "sorted (map facet_key (sort_key facet_key (map ft F)))" by simp
  have B: "distinct (map facet_key (sort_key facet_key (map ft F)))"
    by (simp only: distinct_map_sort_key fk dF)
  have C: "set (map facet_key (sort_key facet_key (map ft F))) = cell i ` set (table t)"
  proof -
    have "set (map facet_key (sort_key facet_key (map ft F))) = set (map facet_key (map ft F))"
      by (simp only: set_map set_sort)
    then show ?thesis by (simp only: fk sF)
  qed
  have D: "faceted_on x = Some (facet_key x)
           \<and> table x = filter (\<lambda>e. cell i e = facet_key x) (table t)
           \<and> default_columns x = default_columns t \<and> formatting x = formatting t"
    if "x \<in> set (sort_key facet_key (map ft F))" for x
  proof -
    from that obtain k v where kv: "(k, v) \<in> set F" and x: "x = ft (k, v)" by auto
    from vF[OF kv] have "map Plain v = filter (\<lambda>e. cell i e = k) (table t)"
      by (simp only: plain)
    then show ?thesis by (simp add: x ft_def facet_key_def init_fields_def)
  qed
  from fb A B C D show ?thesis unfolding i_def by blast
qed

end
